theory Spec2Isabelle
  imports Complex_Main
begin

section \<open>Data model\<close>

text \<open>
  The repository holds three revisions of one translation unit: the documented
  \<^verbatim>\<open>snake.cpp\<close> (\<^verbatim>\<open>src/unnamed/part_000\<close>), \<^verbatim>\<open>src/src/main.cpp\<close> and
  \<^verbatim>\<open>src/unnamed/part_001\<close>. \<^verbatim>\<open>OffsetFromDirection\<close> and \<^verbatim>\<open>IsGameOver\<close> are the
  same in all three. The text of \<^verbatim>\<open>Update\<close> is the same too, but the
  \<^verbatim>\<open>GetNewApplePosition\<close> it calls is not. Where the revisions differ, the unsuffixed
  constant embeds \<^verbatim>\<open>snake.cpp\<close> and the constant with suffix \<open>_main\<close> embeds
  \<^verbatim>\<open>main.cpp\<close>, whose logic \<^verbatim>\<open>part_001\<close> shares; \<^verbatim>\<open>GetCellSize\<close> is the exception:
  \<^verbatim>\<open>main.cpp\<close> and \<^verbatim>\<open>snake.cpp\<close> share the integer version, and \<open>GetCellSize_float\<close>
  embeds the version of \<^verbatim>\<open>part_001\<close>.

  A C++ \<^verbatim>\<open>int\<close> is modelled by \<^typ>\<open>int\<close>. In the game logic the coordinates stay far
  from the limits of a 32-bit \<^verbatim>\<open>int\<close>; in \<^verbatim>\<open>GetCellSize\<close>, whose arguments come from the
  window system, the subtraction wraps around modulo \<open>2 ^ 32\<close> as the compiled code does,
  written out in \<open>wrap32\<close>. Division truncates towards zero and is written out in
  \<open>cpp_div\<close>. Undefined behaviour that a state can trigger and that has no value
  (\<^verbatim>\<open>front()\<close> of an empty deque, division by zero, the quotient \<open>INT_MIN / -1\<close>, a float
  outside the range of \<^verbatim>\<open>int\<close> cast to \<^verbatim>\<open>int\<close>) is the value \<open>None\<close>.
\<close>

datatype Direction = UP | DOWN | LEFT | RIGHT

datatype Vector2Int = Vector2Int (vx: int) (vy: int)

record Game =
  width :: int
  height :: int
  snake :: "Vector2Int list"
  apple :: Vector2Int
  direction :: Direction
  directionQueue :: "Direction list"

text \<open>
  \<^verbatim>\<open>std::deque<Vector2Int> snake\<close> is a list with the head of the snake first;
  \<^verbatim>\<open>std::queue<Direction>\<close> is a list with \<^verbatim>\<open>front()\<close> first and \<^verbatim>\<open>back()\<close> last.
\<close>

definition BORDER_THICKNESS :: int where
  "BORDER_THICKNESS = 2"

section \<open>Integer division of C++\<close>

definition cpp_div :: "int \<Rightarrow> int \<Rightarrow> int" where
  "cpp_div a b = (if (a < 0) = (b < 0) then \<bar>a\<bar> div \<bar>b\<bar> else - (\<bar>a\<bar> div \<bar>b\<bar>))"

section \<open>The 32-bit \<^verbatim>\<open>int\<close>\<close>

definition INT_MIN :: int where
  "INT_MIN = - (2 ^ 31)"

definition INT_MAX :: int where
  "INT_MAX = 2 ^ 31 - 1"

definition wrap32 :: "int \<Rightarrow> int" where
  "wrap32 v = (v + 2 ^ 31) mod 2 ^ 32 - 2 ^ 31"

section \<open>Grid geometry\<close>

text \<open>\<^verbatim>\<open>GetCellSize\<close> of \<^verbatim>\<open>main.cpp\<close> and \<^verbatim>\<open>snake.cpp\<close>, on 32-bit integers.\<close>

definition GetCellSize :: "int \<Rightarrow> int \<Rightarrow> int \<Rightarrow> int \<Rightarrow> int option" where
  "GetCellSize gameWidth gameHeight screenWidth screenHeight =
     (let w = wrap32 (screenWidth - BORDER_THICKNESS * 2);
          h = wrap32 (screenHeight - BORDER_THICKNESS * 2)
      in if gameWidth = 0 \<or> gameHeight = 0 then None
         else if (w = INT_MIN \<and> gameWidth = - 1) \<or> (h = INT_MIN \<and> gameHeight = - 1) then None
         else
           let cellWidth = cpp_div w gameWidth;
               cellHeight = cpp_div h gameHeight
           in Some (min cellWidth cellHeight))"

text \<open>
  \<^verbatim>\<open>GetCellSize\<close> of \<^verbatim>\<open>part_001\<close> converts to \<^verbatim>\<open>float\<close>, divides, takes the smaller
  quotient and casts it to \<^verbatim>\<open>int\<close>. A finite \<^verbatim>\<open>float\<close> is the real number it denotes.
  \<open>f32\<close> rounds a real number to the nearest number with a significand of 24 bits, a
  tie to the one whose significand is even: the rounding of a conversion and of a
  division in IEEE 754 single precision. Overflow and subnormal numbers play no part,
  since a quotient of two 32-bit integers is 0 or lies between \<open>2 ^ - 31\<close> and \<open>2 ^ 31\<close>
  in magnitude. The cast truncates towards zero (\<open>cpp_trunc\<close>).
\<close>

definition round_ties_even :: "real \<Rightarrow> int" where
  "round_ties_even y =
     (let f = \<lfloor>y\<rfloor>
      in if y - of_int f < 1 / 2 then f
         else if 1 / 2 < y - of_int f then f + 1
         else if even f then f else f + 1)"

definition f32 :: "real \<Rightarrow> real" where
  "f32 v =
     (if v = 0 then 0
      else
        let e = \<lfloor>log 2 \<bar>v\<bar>\<rfloor> - 23
        in of_int (round_ties_even (v / 2 powr of_int e)) * 2 powr of_int e)"

definition cpp_trunc :: "real \<Rightarrow> int" where
  "cpp_trunc r = (if 0 \<le> r then \<lfloor>r\<rfloor> else - \<lfloor>- r\<rfloor>)"

definition GetCellSize_float :: "int \<Rightarrow> int \<Rightarrow> int \<Rightarrow> int \<Rightarrow> int option" where
  "GetCellSize_float gameWidth gameHeight screenWidth screenHeight =
     (if gameWidth = 0 \<or> gameHeight = 0 then None
      else
        let cellWidth = f32 (f32 (of_int (wrap32 (screenWidth - BORDER_THICKNESS * 2)))
                               / f32 (of_int gameWidth));
            cellHeight = f32 (f32 (of_int (wrap32 (screenHeight - BORDER_THICKNESS * 2)))
                                / f32 (of_int gameHeight));
            cell = cpp_trunc (min cellWidth cellHeight)
        in if INT_MIN \<le> cell \<and> cell \<le> INT_MAX then Some cell else None)"

section \<open>Directions\<close>

fun OffsetFromDirection :: "Direction \<Rightarrow> Vector2Int" where
  "OffsetFromDirection UP = Vector2Int 0 (-1)"
| "OffsetFromDirection DOWN = Vector2Int 0 1"
| "OffsetFromDirection LEFT = Vector2Int (-1) 0"
| "OffsetFromDirection RIGHT = Vector2Int 1 0"

section \<open>Collision test\<close>

definition IsGameOver :: "Game \<Rightarrow> Vector2Int \<Rightarrow> bool" where
  "IsGameOver game newHead =
     (if vx newHead < 0 \<or> vx newHead \<ge> width game \<or> vy newHead < 0 \<or> vy newHead \<ge> height game
      then True
      else newHead \<in> set (snake game))"

section \<open>Food placement\<close>

text \<open>
  The two nested \<^verbatim>\<open>for\<close> loops of \<^verbatim>\<open>GetNewApplePosition\<close> in \<^verbatim>\<open>snake.cpp\<close>, with the
  vector \<^verbatim>\<open>emptyCells\<close> as accumulator (\<^verbatim>\<open>push_back\<close> appends).
\<close>

function emptyCells_y_loop :: "Game \<Rightarrow> int \<Rightarrow> int \<Rightarrow> Vector2Int list \<Rightarrow> Vector2Int list" where
  "emptyCells_y_loop game x y emptyCells =
     (if y < height game
      then emptyCells_y_loop game x (y + 1)
             (if Vector2Int x y \<notin> set (snake game) then emptyCells @ [Vector2Int x y]
              else emptyCells)
      else emptyCells)"
  by pat_completeness auto
termination
  by (relation "measure (\<lambda>(game, x, y, emptyCells). nat (height game - y))") auto

function emptyCells_x_loop :: "Game \<Rightarrow> int \<Rightarrow> Vector2Int list \<Rightarrow> Vector2Int list" where
  "emptyCells_x_loop game x emptyCells =
     (if x < width game
      then emptyCells_x_loop game (x + 1) (emptyCells_y_loop game x 0 emptyCells)
      else emptyCells)"
  by pat_completeness auto
termination
  by (relation "measure (\<lambda>(game, x, emptyCells). nat (width game - x))") auto

declare emptyCells_y_loop.simps [simp del]
declare emptyCells_x_loop.simps [simp del]

text \<open>
  \<^verbatim>\<open>std::uniform_int_distribution dis(a, b); dis(gen)\<close> is a parameter \<open>dis\<close> of the
  model: \<open>dis a b\<close> is the number drawn. The C++ standard promises a value in the closed
  range \<open>[a, b]\<close>; \<open>uniform_draw\<close> records that promise.
\<close>

type_synonym draw = "int \<Rightarrow> int \<Rightarrow> int"

definition uniform_draw :: "draw \<Rightarrow> bool" where
  "uniform_draw dis \<longleftrightarrow> (\<forall>a b. a \<le> b \<longrightarrow> a \<le> dis a b \<and> dis a b \<le> b)"

definition GetNewApplePosition :: "Game \<Rightarrow> draw \<Rightarrow> Vector2Int" where
  "GetNewApplePosition game dis =
     (let emptyCells = emptyCells_x_loop game 0 []
      in if emptyCells \<noteq> []
         then emptyCells ! nat (dis 0 (int (length emptyCells) - 1))
         else Vector2Int 0 0)"

section \<open>Reset\<close>

definition ResetGame :: "Game \<Rightarrow> draw \<Rightarrow> Game" where
  "ResetGame game dis =
     (let centerX = cpp_div (width game) 2;
          centerY = cpp_div (height game) 2;
          head = Vector2Int centerX centerY;
          offset = OffsetFromDirection (direction game);
          second = Vector2Int (vx head - vx offset) (vy head - vy offset);
          third = Vector2Int (vx second - vx offset) (vy second - vy offset);
          game1 = game\<lparr>snake := [head, second, third]\<rparr>
      in game1\<lparr>apple := GetNewApplePosition game1 dis\<rparr>)"

section \<open>Input queue\<close>

definition QueueDirection :: "Game \<Rightarrow> Direction \<Rightarrow> Game" where
  "QueueDirection game newDirection =
     (if length (directionQueue game) \<ge> 3 then game
      else
        let lastDirection =
              (if directionQueue game = [] then direction game else last (directionQueue game))
        in if (newDirection = LEFT \<and> lastDirection \<noteq> RIGHT) \<or>
              (newDirection = RIGHT \<and> lastDirection \<noteq> LEFT) \<or>
              (newDirection = UP \<and> lastDirection \<noteq> DOWN) \<or>
              (newDirection = DOWN \<and> lastDirection \<noteq> UP)
           then game\<lparr>directionQueue := directionQueue game @ [newDirection]\<rparr>
           else game)"

text \<open>\<^verbatim>\<open>QueueDirection\<close> of \<^verbatim>\<open>main.cpp\<close> (and of \<^verbatim>\<open>part_001\<close>).\<close>

definition QueueDirection_main :: "Game \<Rightarrow> Direction \<Rightarrow> Game" where
  "QueueDirection_main game newDirection =
     (if length (directionQueue game) \<ge> 3 then game
      else if directionQueue game \<noteq> [] \<and> last (directionQueue game) = newDirection then game
      else if directionQueue game = []
      then
        (if (newDirection = LEFT \<and> direction game \<noteq> RIGHT) \<or>
            (newDirection = RIGHT \<and> direction game \<noteq> LEFT) \<or>
            (newDirection = UP \<and> direction game \<noteq> DOWN) \<or>
            (newDirection = DOWN \<and> direction game \<noteq> UP)
         then game\<lparr>directionQueue := directionQueue game @ [newDirection]\<rparr>
         else game)
      else
        (let lastQueued = last (directionQueue game)
         in if (newDirection = LEFT \<and> lastQueued \<noteq> RIGHT) \<or>
               (newDirection = RIGHT \<and> lastQueued \<noteq> LEFT) \<or>
               (newDirection = UP \<and> lastQueued \<noteq> DOWN) \<or>
               (newDirection = DOWN \<and> lastQueued \<noteq> UP)
            then game\<lparr>directionQueue := directionQueue game @ [newDirection]\<rparr>
            else game))"

section \<open>Simulation step\<close>

text \<open>
  \<^verbatim>\<open>Update\<close> returns the game-over flag and mutates the game; the model returns both.
  \<open>dequeue\<close> is its first statement, \<open>newHeadOf\<close> the cell it computes next. \<open>Update\<close>
  is \<^verbatim>\<open>Update\<close> of \<^verbatim>\<open>snake.cpp\<close>, which calls the food placer of \<^verbatim>\<open>snake.cpp\<close>.
\<close>

definition dequeue :: "Game \<Rightarrow> Game" where
  "dequeue game =
     (case directionQueue game of
        [] \<Rightarrow> game
      | d # rest \<Rightarrow> game\<lparr>direction := d, directionQueue := rest\<rparr>)"

definition newHeadOf :: "Game \<Rightarrow> Vector2Int \<Rightarrow> Vector2Int" where
  "newHeadOf game front =
     (let offset = OffsetFromDirection (direction game)
      in Vector2Int (vx front + vx offset) (vy front + vy offset))"

definition Update :: "Game \<Rightarrow> draw \<Rightarrow> (bool \<times> Game) option" where
  "Update game dis =
     (let game1 = dequeue game
      in case snake game1 of
           [] \<Rightarrow> None
         | front # _ \<Rightarrow>
             let newHead = newHeadOf game1 front
             in if IsGameOver game1 newHead then Some (True, game1)
                else
                  let game2 = game1\<lparr>snake := newHead # snake game1\<rparr>
                  in if newHead = apple game2
                     then Some (False, game2\<lparr>apple := GetNewApplePosition game2 dis\<rparr>)
                     else Some (False, game2\<lparr>snake := butlast (snake game2)\<rparr>))"

text \<open>The body of the timer branch of \<^verbatim>\<open>main\<close>: \<^verbatim>\<open>if (Update(game)) ResetGame(game);\<close>\<close>

definition main_move :: "Game \<Rightarrow> draw \<Rightarrow> draw \<Rightarrow> Game option" where
  "main_move game dis dis' =
     (case Update game dis of
        None \<Rightarrow> None
      | Some (over, game1) \<Rightarrow> Some (if over then ResetGame game1 dis' else game1))"

section \<open>The revision of \<^verbatim>\<open>main.cpp\<close>: rejection sampling\<close>

text \<open>
  \<^verbatim>\<open>GetNewApplePosition\<close> of \<^verbatim>\<open>main.cpp\<close> and \<^verbatim>\<open>part_001\<close> is a \<^verbatim>\<open>do ... while\<close> loop
  that draws a cell until the cell is not on the snake. The list \<open>draws\<close> holds the
  cells the generator produces, in order; it is also the fuel: \<open>None\<close> says that the
  loop is still running when the draws are used up.
\<close>

fun GetNewApplePosition_main :: "Game \<Rightarrow> Vector2Int list \<Rightarrow> Vector2Int option" where
  "GetNewApplePosition_main game [] = None"
| "GetNewApplePosition_main game (pos # draws) =
     (if pos \<in> set (snake game) then GetNewApplePosition_main game draws else Some pos)"

text \<open>
  \<^verbatim>\<open>ResetGame\<close> of \<^verbatim>\<open>main.cpp\<close> and \<^verbatim>\<open>part_001\<close>. Its \<^verbatim>\<open>default\<close> label and its
  closing repair of an invalid direction cannot be reached with the four directions of
  \<^typ>\<open>Direction\<close>.
\<close>

definition ResetGame_main :: "Game \<Rightarrow> Vector2Int list \<Rightarrow> Game option" where
  "ResetGame_main game draws =
     (let centerX = cpp_div (width game) 2;
          centerY = cpp_div (height game) 2;
          head = Vector2Int centerX centerY;
          (second, third) =
            (case direction game of
               UP \<Rightarrow> (Vector2Int centerX (centerY + 1), Vector2Int centerX (centerY + 2))
             | DOWN \<Rightarrow> (Vector2Int centerX (centerY - 1), Vector2Int centerX (centerY - 2))
             | LEFT \<Rightarrow> (Vector2Int (centerX + 1) centerY, Vector2Int (centerX + 2) centerY)
             | RIGHT \<Rightarrow> (Vector2Int (centerX - 1) centerY, Vector2Int (centerX - 2) centerY));
          game1 = game\<lparr>snake := [head, second, third]\<rparr>
      in case GetNewApplePosition_main game1 draws of
           None \<Rightarrow> None
         | Some pos \<Rightarrow> Some (game1\<lparr>apple := pos\<rparr>))"

text \<open>
  \<^verbatim>\<open>Update\<close> of \<^verbatim>\<open>main.cpp\<close> and \<^verbatim>\<open>part_001\<close>: the same statements, with the rejection
  loop as food placer. \<open>None\<close> is the undefined \<^verbatim>\<open>front()\<close> of an empty snake or a loop
  still running when the draws are used up.
\<close>

definition Update_main :: "Game \<Rightarrow> Vector2Int list \<Rightarrow> (bool \<times> Game) option" where
  "Update_main game draws =
     (let game1 = dequeue game
      in case snake game1 of
           [] \<Rightarrow> None
         | front # _ \<Rightarrow>
             let newHead = newHeadOf game1 front
             in if IsGameOver game1 newHead then Some (True, game1)
                else
                  let game2 = game1\<lparr>snake := newHead # snake game1\<rparr>
                  in if newHead = apple game2
                     then (case GetNewApplePosition_main game2 draws of
                             None \<Rightarrow> None
                           | Some pos \<Rightarrow> Some (False, game2\<lparr>apple := pos\<rparr>))
                     else Some (False, game2\<lparr>snake := butlast (snake game2)\<rparr>))"

text \<open>The timer branch of \<^verbatim>\<open>main\<close> in \<^verbatim>\<open>main.cpp\<close> and \<^verbatim>\<open>part_001\<close>.\<close>

definition main_move_main :: "Game \<Rightarrow> Vector2Int list \<Rightarrow> Vector2Int list \<Rightarrow> Game option" where
  "main_move_main game draws draws' =
     (case Update_main game draws of
        None \<Rightarrow> None
      | Some (over, game1) \<Rightarrow> (if over then ResetGame_main game1 draws' else Some game1))"

section \<open>Vocabulary of the specification\<close>

text \<open>
  The cell one step from \<open>p\<close> in a direction, with the offsets of the specification
  (up is (0, -1), down (0, 1), left (-1, 0), right (1, 0)), and the three cells of a fresh
  snake whose head is \<open>c\<close>: the second and the third lie one and two steps against the
  direction.
\<close>

fun spec_newHead :: "Direction \<Rightarrow> Vector2Int \<Rightarrow> Vector2Int" where
  "spec_newHead UP p = Vector2Int (vx p) (vy p - 1)"
| "spec_newHead DOWN p = Vector2Int (vx p) (vy p + 1)"
| "spec_newHead LEFT p = Vector2Int (vx p - 1) (vy p)"
| "spec_newHead RIGHT p = Vector2Int (vx p + 1) (vy p)"

fun spec_layout :: "Vector2Int \<Rightarrow> Direction \<Rightarrow> Vector2Int list" where
  "spec_layout c UP = [c, Vector2Int (vx c) (vy c + 1), Vector2Int (vx c) (vy c + 2)]"
| "spec_layout c DOWN = [c, Vector2Int (vx c) (vy c - 1), Vector2Int (vx c) (vy c - 2)]"
| "spec_layout c LEFT = [c, Vector2Int (vx c + 1) (vy c), Vector2Int (vx c + 2) (vy c)]"
| "spec_layout c RIGHT = [c, Vector2Int (vx c - 1) (vy c), Vector2Int (vx c - 2) (vy c)]"

text \<open>A cell of the grid \<open>[0, width) \<times> [0, height)\<close>, and a grid cell off the snake.\<close>

definition in_grid :: "Game \<Rightarrow> Vector2Int \<Rightarrow> bool" where
  "in_grid game p \<longleftrightarrow> 0 \<le> vx p \<and> vx p < width game \<and> 0 \<le> vy p \<and> vy p < height game"

definition is_free :: "Game \<Rightarrow> Vector2Int \<Rightarrow> bool" where
  "is_free game p \<longleftrightarrow> in_grid game p \<and> p \<notin> set (snake game)"

text \<open>The relation \<^verbatim>\<open>IsOpposite\<close> of the specification, and a sequence without a reversal.\<close>

fun opposite :: "Direction \<Rightarrow> Direction \<Rightarrow> bool" where
  "opposite UP DOWN = True"
| "opposite DOWN UP = True"
| "opposite LEFT RIGHT = True"
| "opposite RIGHT LEFT = True"
| "opposite _ _ = False"

fun no_reversal :: "Direction list \<Rightarrow> bool" where
  "no_reversal (a # b # rest) = (\<not> opposite a b \<and> no_reversal (b # rest))"
| "no_reversal _ = True"

definition queue_ok :: "Game \<Rightarrow> bool" where
  "queue_ok game \<longleftrightarrow>
     no_reversal (direction game # directionQueue game) \<and> length (directionQueue game) \<le> 3"

section \<open>Concrete states\<close>

text \<open>A generator stub that always draws the lower end of the range.\<close>

definition lowest :: draw where
  "lowest a b = a"

text \<open>A generator stub that always draws the upper end of the range.\<close>

definition highest :: draw where
  "highest a b = b"


text \<open>A snake curled in a square whose next move, a right turn, enters its tail cell.\<close>

definition tail_chase_game :: Game where
  "tail_chase_game = \<lparr>width = 5, height = 5,
     snake = [Vector2Int 1 1, Vector2Int 1 2, Vector2Int 2 2, Vector2Int 2 1],
     apple = Vector2Int 4 4, direction = UP, directionQueue = [RIGHT]\<rparr>"



text \<open>A 2 by 2 grid that the snake fills.\<close>

definition full_game :: Game where
  "full_game = \<lparr>width = 2, height = 2,
     snake = [Vector2Int 1 0, Vector2Int 0 0, Vector2Int 0 1, Vector2Int 1 1],
     apple = Vector2Int 0 0, direction = RIGHT, directionQueue = []\<rparr>"


text \<open>One queued direction, about to be requested again.\<close>

definition dup_game :: Game where
  "dup_game = \<lparr>width = 25, height = 25,
     snake = [Vector2Int 12 12, Vector2Int 11 12, Vector2Int 10 12],
     apple = Vector2Int 3 4, direction = RIGHT, directionQueue = [UP]\<rparr>"

text \<open>A snake running up the left wall with two turns queued; the first turn hits the wall.\<close>

definition wall_game :: Game where
  "wall_game = \<lparr>width = 5, height = 5,
     snake = [Vector2Int 0 1, Vector2Int 0 2, Vector2Int 0 3],
     apple = Vector2Int 3 3, direction = UP, directionQueue = [LEFT, DOWN]\<rparr>"

section \<open>Auxiliary facts\<close>

subsection \<open>Truncating division\<close>

lemma cpp_div_nonneg: "0 \<le> a \<Longrightarrow> 0 < b \<Longrightarrow> cpp_div a b = a div b"
  by (simp add: cpp_div_def)

lemma cpp_div_neg: "a < 0 \<Longrightarrow> 0 < b \<Longrightarrow> cpp_div a b = - ((- a) div b)"
  by (simp add: cpp_div_def)

subsection \<open>The cells collected by the two loops\<close>

lemma set_emptyCells_y_loop:
  "set (emptyCells_y_loop game x y acc) =
     set acc \<union> {Vector2Int x y' | y'. y \<le> y' \<and> y' < height game \<and> Vector2Int x y' \<notin> set (snake game)}"
proof (induction game x y acc rule: emptyCells_y_loop.induct)
  case (1 game x y emptyCells)
  show ?case
  proof (cases "y < height game")
    case True
    have first_row: "\<And>P. {Vector2Int x y' | y'. y \<le> y' \<and> y' < height game \<and> P y'} =
        (if P y then {Vector2Int x y} else {}) \<union>
        {Vector2Int x y' | y'. y + 1 \<le> y' \<and> y' < height game \<and> P y'}"
      using True by (auto simp: order_le_less)
    show ?thesis
      using True 1
      apply (subst emptyCells_y_loop.simps)
      apply (subst first_row)
      apply auto
      done
  next
    case False
    then show ?thesis
      by (subst emptyCells_y_loop.simps) auto
  qed
qed

lemma set_emptyCells_x_loop:
  "set (emptyCells_x_loop game x acc) =
     set acc \<union> {Vector2Int x' y' | x' y'. x \<le> x' \<and> x' < width game \<and> 0 \<le> y' \<and> y' < height game
                     \<and> Vector2Int x' y' \<notin> set (snake game)}"
proof (induction game x acc rule: emptyCells_x_loop.induct)
  case (1 game x emptyCells)
  show ?case
  proof (cases "x < width game")
    case True
    show ?thesis
      using True 1
      apply (subst emptyCells_x_loop.simps)
      apply (simp add: set_emptyCells_y_loop)
      apply (auto simp: order_le_less)
      done
  next
    case False
    then show ?thesis
      by (subst emptyCells_x_loop.simps) auto
  qed
qed

lemma set_emptyCells: "set (emptyCells_x_loop game 0 []) = {p. is_free game p}"
  apply (simp add: set_emptyCells_x_loop is_free_def in_grid_def)
  apply auto
  subgoal for p by (cases p) auto
  done

subsection \<open>Food placement\<close>


lemma GetNewApplePosition_free:
  assumes "uniform_draw dis" and "is_free game q"
  shows "is_free game (GetNewApplePosition game dis)"
proof -
  let ?cells = "emptyCells_x_loop game 0 []"
  from assms(2) have "q \<in> set ?cells"
    by (simp add: set_emptyCells)
  then have ne: "?cells \<noteq> []" by auto
  then have le: "(0::int) \<le> int (length ?cells) - 1" by (cases ?cells) auto
  from assms(1) [unfolded uniform_draw_def, rule_format, OF le]
  have "0 \<le> dis 0 (int (length ?cells) - 1)"
    and "dis 0 (int (length ?cells) - 1) \<le> int (length ?cells) - 1"
    by blast+
  then have "nat (dis 0 (int (length ?cells) - 1)) < length ?cells" by linarith
  then have "?cells ! nat (dis 0 (int (length ?cells) - 1)) \<in> set ?cells"
    by (rule nth_mem)
  then show ?thesis
    using ne by (simp add: GetNewApplePosition_def Let_def set_emptyCells)
qed

lemma GetNewApplePosition_full:
  assumes "\<And>p. \<not> is_free game p"
  shows "GetNewApplePosition game dis = Vector2Int 0 0"
proof -
  have "set (emptyCells_x_loop game 0 []) = {}"
    using assms by (simp add: set_emptyCells)
  then show ?thesis
    by (simp add: GetNewApplePosition_def)
qed

text \<open>
  The rejection loop of \<^verbatim>\<open>main.cpp\<close>: a cell it returns is off the snake, and on a grid
  that the snake fills it returns nothing, whatever cells of the grid are drawn and
  however many.
\<close>

lemma GetNewApplePosition_main_Some:
  "GetNewApplePosition_main game draws = Some pos \<Longrightarrow> pos \<in> set draws \<and> pos \<notin> set (snake game)"
  by (induction draws) (auto split: if_splits)

lemma GetNewApplePosition_main_full:
  assumes "\<And>p. \<not> is_free game p" and "\<And>p. p \<in> set draws \<Longrightarrow> in_grid game p"
  shows "GetNewApplePosition_main game draws = None"
  using assms by (induction draws) (auto simp: is_free_def)

subsection \<open>Reset\<close>

lemma ResetGame_fields [simp]:
  "width (ResetGame game dis) = width game"
  "height (ResetGame game dis) = height game"
  "direction (ResetGame game dis) = direction game"
  "directionQueue (ResetGame game dis) = directionQueue game"
  by (simp_all add: ResetGame_def Let_def)

lemma ResetGame_snake:
  "snake (ResetGame game dis) =
     [Vector2Int (cpp_div (width game) 2) (cpp_div (height game) 2),
      Vector2Int (cpp_div (width game) 2 - vx (OffsetFromDirection (direction game)))
                 (cpp_div (height game) 2 - vy (OffsetFromDirection (direction game))),
      Vector2Int (cpp_div (width game) 2 - vx (OffsetFromDirection (direction game))
                    - vx (OffsetFromDirection (direction game)))
                 (cpp_div (height game) 2 - vy (OffsetFromDirection (direction game))
                    - vy (OffsetFromDirection (direction game)))]"
  by (simp add: ResetGame_def Let_def)

lemma ResetGame_apple:
  "apple (ResetGame game dis) =
     GetNewApplePosition (game\<lparr>snake := snake (ResetGame game dis)\<rparr>) dis"
  by (simp add: ResetGame_def Let_def)

text \<open>
  \<^verbatim>\<open>ResetGame\<close> of \<^verbatim>\<open>main.cpp\<close> lays out the same three cells with a \<^verbatim>\<open>switch\<close>, and
  it too leaves the queue alone.
\<close>

lemma ResetGame_main_agrees:
  assumes "ResetGame_main game draws = Some game'"
  shows "snake game' = snake (ResetGame game dis) \<and> width game' = width game
       \<and> height game' = height game \<and> direction game' = direction game
       \<and> directionQueue game' = directionQueue game \<and> apple game' \<notin> set (snake game')"
proof (cases "direction game")
  case UP
  with assms show ?thesis
    by (auto simp: ResetGame_main_def ResetGame_snake Let_def split: option.splits
        dest!: GetNewApplePosition_main_Some)
next
  case DOWN
  with assms show ?thesis
    by (auto simp: ResetGame_main_def ResetGame_snake Let_def split: option.splits
        dest!: GetNewApplePosition_main_Some)
next
  case LEFT
  with assms show ?thesis
    by (auto simp: ResetGame_main_def ResetGame_snake Let_def split: option.splits
        dest!: GetNewApplePosition_main_Some)
next
  case RIGHT
  with assms show ?thesis
    by (auto simp: ResetGame_main_def ResetGame_snake Let_def split: option.splits
        dest!: GetNewApplePosition_main_Some)
qed

subsection \<open>The input queue\<close>

lemma no_reversal_snoc:
  "no_reversal (xs @ [d]) \<longleftrightarrow> no_reversal xs \<and> (xs = [] \<or> \<not> opposite (last xs) d)"
  by (induction xs rule: no_reversal.induct) auto

lemma QueueDirection_queue_ok: "queue_ok game \<Longrightarrow> queue_ok (QueueDirection game d)"
  unfolding queue_ok_def QueueDirection_def Let_def
  using no_reversal_snoc [of "direction game # directionQueue game" d]
  by (cases d; cases "direction game"; cases "last (directionQueue game)") auto

lemma QueueDirection_main_queue_ok: "queue_ok game \<Longrightarrow> queue_ok (QueueDirection_main game d)"
  unfolding queue_ok_def QueueDirection_main_def Let_def
  using no_reversal_snoc [of "direction game # directionQueue game" d]
  by (cases d; cases "direction game"; cases "last (directionQueue game)") auto

lemma foldl_queue_ok:
  assumes "\<And>g d. queue_ok g \<Longrightarrow> queue_ok (f g d)"
  shows "queue_ok game \<Longrightarrow> queue_ok (foldl f game ds)"
  by (induction ds arbitrary: game) (auto intro: assms)

lemma QueueDirection_main_duplicate:
  "directionQueue game \<noteq> [] \<Longrightarrow> last (directionQueue game) = d \<Longrightarrow>
   QueueDirection_main game d = game"
  by (simp add: QueueDirection_main_def)

text \<open>\<^verbatim>\<open>QueueDirection\<close> of \<^verbatim>\<open>snake.cpp\<close> has no such guard: with room in the queue it appends.\<close>

lemma QueueDirection_duplicate:
  "directionQueue game \<noteq> [] \<Longrightarrow> length (directionQueue game) < 3 \<Longrightarrow>
   QueueDirection game (last (directionQueue game)) =
     game\<lparr>directionQueue := directionQueue game @ [last (directionQueue game)]\<rparr>"
  by (cases "last (directionQueue game)") (simp_all add: QueueDirection_def)

subsection \<open>The simulation step\<close>

lemma dequeue_frame [simp]:
  "width (dequeue game) = width game" "height (dequeue game) = height game"
  "snake (dequeue game) = snake game" "apple (dequeue game) = apple game"
  by (simp_all add: dequeue_def split: list.splits)

lemma dequeue_Cons [simp]:
  "directionQueue game = d # rest \<Longrightarrow> direction (dequeue game) = d"
  "directionQueue game = d # rest \<Longrightarrow> directionQueue (dequeue game) = rest"
  by (simp_all add: dequeue_def)

lemma IsGameOver_dequeue:
  "IsGameOver (dequeue game) p \<longleftrightarrow> \<not> in_grid game p \<or> p \<in> set (snake game)"
  by (auto simp: IsGameOver_def in_grid_def)

lemma Update_over:
  assumes "snake game = front # rest"
  shows "\<exists>game'. Update game dis =
           Some (\<not> in_grid game (newHeadOf (dequeue game) front)
                   \<or> newHeadOf (dequeue game) front \<in> set (snake game), game')"
  using assms by (simp add: Update_def Let_def IsGameOver_dequeue)

lemma Update_True:
  assumes "Update game dis = Some (True, game')"
  shows "game' = dequeue game"
  using assms by (auto simp: Update_def Let_def split: list.splits if_splits)

subsection \<open>Wrap-around\<close>

lemma wrap32_id: "INT_MIN \<le> v \<Longrightarrow> v \<le> INT_MAX \<Longrightarrow> wrap32 v = v"
  by (simp add: wrap32_def INT_MIN_def INT_MAX_def)

subsection \<open>Single-precision rounding\<close>

lemma round_ties_even_of_int [simp]: "round_ties_even (of_int k) = k"
  by (simp add: round_ties_even_def)

lemma round_ties_even_err: "\<bar>of_int (round_ties_even y) - y\<bar> \<le> 1 / 2"
  unfolding round_ties_even_def Let_def
  by (auto simp: abs_le_iff)

lemma floor_minus_cases:
  "\<lfloor>- y :: real\<rfloor> = (if y = of_int \<lfloor>y\<rfloor> then - \<lfloor>y\<rfloor> else - \<lfloor>y\<rfloor> - 1)"
  by (simp add: floor_minus ceiling_altdef)

lemma round_ties_even_minus: "round_ties_even (- y) = - round_ties_even y"
proof (cases "y = of_int \<lfloor>y\<rfloor>")
  case True
  then obtain k where "y = of_int k" ..
  then show ?thesis
    by (metis round_ties_even_of_int of_int_minus)
next
  case False
  then show ?thesis
    unfolding round_ties_even_def Let_def floor_minus_cases
    by (auto simp: algebra_simps)
qed

lemma f32_minus: "f32 (- v) = - f32 v"
  by (simp add: f32_def Let_def round_ties_even_minus)

lemma f32_scale:
  assumes "v \<noteq> 0"
  shows "2 powr of_int (\<lfloor>log 2 \<bar>v\<bar>\<rfloor> - 23) * 2 ^ 23 \<le> \<bar>v\<bar>"
proof -
  have "of_int \<lfloor>log 2 \<bar>v\<bar>\<rfloor> \<le> log 2 \<bar>v\<bar>" by simp
  then have "2 powr of_int \<lfloor>log 2 \<bar>v\<bar>\<rfloor> \<le> 2 powr log 2 \<bar>v\<bar>"
    by (simp only: powr_le_cancel_iff)
  also have "\<dots> = \<bar>v\<bar>" using assms by simp
  finally have "2 powr of_int \<lfloor>log 2 \<bar>v\<bar>\<rfloor> \<le> \<bar>v\<bar>" .
  moreover have "2 powr of_int (\<lfloor>log 2 \<bar>v\<bar>\<rfloor> - 23) * 2 ^ 23
      = (2::real) powr of_int \<lfloor>log 2 \<bar>v\<bar>\<rfloor>"
    by (simp add: powr_diff)
  ultimately show ?thesis by simp
qed

text \<open>The relative error of the rounding is at most \<open>2 ^ - 24\<close>.\<close>

lemma f32_rel_err: "\<bar>f32 v - v\<bar> \<le> \<bar>v\<bar> / 2 ^ 24"
proof (cases "v = 0")
  case True
  then show ?thesis by (simp add: f32_def)
next
  case False
  define e where "e = \<lfloor>log 2 \<bar>v\<bar>\<rfloor> - 23"
  define s :: real where "s = 2 powr of_int e"
  have s: "0 < s" by (simp add: s_def)
  have big: "s * 2 ^ 23 \<le> \<bar>v\<bar>"
    using f32_scale [OF False] by (simp add: s_def e_def)
  have f: "f32 v = of_int (round_ties_even (v / s)) * s"
    using False by (simp add: f32_def e_def s_def Let_def)
  have "f32 v - v = (of_int (round_ties_even (v / s)) - v / s) * s"
    using s by (simp add: f algebra_simps)
  then have "\<bar>f32 v - v\<bar> = \<bar>of_int (round_ties_even (v / s)) - v / s\<bar> * s"
    using s by (simp add: abs_mult)
  also have "\<dots> \<le> (1 / 2) * s"
    using round_ties_even_err [of "v / s"] s by (intro mult_right_mono) auto
  also have "\<dots> = (s * 2 ^ 23) / 2 ^ 24" by simp
  also have "\<dots> \<le> \<bar>v\<bar> / 2 ^ 24"
    using big by (intro divide_right_mono) auto
  finally show ?thesis .
qed

lemma f32_exact:
  assumes s: "0 < s" and int: "v / s = of_int k"
    and e: "2 powr of_int (\<lfloor>log 2 \<bar>v\<bar>\<rfloor> - 23) = s"
  shows "f32 v = v"
proof (cases "v = 0")
  case True
  then show ?thesis by (simp add: f32_def)
next
  case False
  have "f32 v = of_int (round_ties_even (v / s)) * s"
    using False e by (simp add: f32_def Let_def)
  also have "\<dots> = of_int k * s" by (simp add: int)
  also have "\<dots> = v" using s int [symmetric] by simp
  finally show ?thesis .
qed

text \<open>An integer of magnitude up to \<open>2 ^ 24\<close> converts without rounding.\<close>

lemma f32_of_int:
  assumes "\<bar>n\<bar> \<le> 2 ^ 24"
  shows "f32 (of_int n) = of_int n"
proof (cases "n = 0")
  case True
  then show ?thesis by (simp add: f32_def)
next
  case False
  define e where "e = \<lfloor>log 2 \<bar>real_of_int n\<bar>\<rfloor> - 23"
  have pos: "0 < \<bar>real_of_int n\<bar>" using False by simp
  have "\<bar>real_of_int n\<bar> \<le> 2 ^ 24"
    using assms by (metis of_int_abs of_int_le_iff of_int_numeral of_int_power)
  then have "\<bar>real_of_int n\<bar> \<le> 2 powr 24"
    by (simp add: powr_numeral)
  then have "log 2 \<bar>real_of_int n\<bar> \<le> 24"
    using pos by (simp only: log_le_iff [of 2, simplified])
  then have "\<lfloor>log 2 \<bar>real_of_int n\<bar>\<rfloor> \<le> 24"
    by (simp add: floor_le_iff)
  then have e1: "e \<le> 1" by (simp add: e_def)
  show ?thesis
  proof (cases "e \<le> 0")
    case True
    define m where "m = nat (- e)"
    have em: "e = - int m" using True by (simp add: m_def)
    have p: "2 powr of_int e = 1 / (2 ^ m :: real)"
      by (simp add: em powr_minus powr_realpow inverse_eq_divide)
    show ?thesis
    proof (rule f32_exact [where s = "1 / 2 ^ m" and k = "n * 2 ^ m"])
      show "0 < 1 / (2 ^ m :: real)" by simp
      show "real_of_int n / (1 / 2 ^ m) = real_of_int (n * 2 ^ m)" by simp
      show "2 powr real_of_int (\<lfloor>log 2 \<bar>real_of_int n\<bar>\<rfloor> - 23) = 1 / 2 ^ m"
        using p by (simp add: e_def)
    qed
  next
    case False
    with e1 have e: "e = 1" by simp
    then have "\<lfloor>log 2 \<bar>real_of_int n\<bar>\<rfloor> = 24"
      by (simp add: e_def)
    then have "of_int 24 \<le> log 2 \<bar>real_of_int n\<bar>"
      by (metis of_int_floor_le)
    then have "24 \<le> log 2 \<bar>real_of_int n\<bar>"
      by simp
    then have "2 powr 24 \<le> \<bar>real_of_int n\<bar>"
      using pos by (simp add: le_log_iff)
    then have "2 ^ 24 \<le> \<bar>n\<bar>"
      by (simp add: powr_numeral)
    with assms have nn: "\<bar>n\<bar> = 2 ^ 24" by simp
    then have "n = 2 ^ 24 \<or> n = - (2 ^ 24)" by (auto simp: abs_if split: if_splits)
    then have n2: "n = 2 * (n div 2)" by auto
    show ?thesis
    proof (rule f32_exact [where s = 2 and k = "n div 2"])
      show "(0::real) < 2" by simp
      show "real_of_int n / 2 = real_of_int (n div 2)"
        using n2 by (metis nonzero_mult_div_cancel_left of_int_mult of_int_numeral zero_neq_numeral)
      show "2 powr real_of_int (\<lfloor>log 2 \<bar>real_of_int n\<bar>\<rfloor> - 23) = 2"
        using e by (simp add: e_def)
    qed
  qed
qed

lemma f32_ratio_err:
  assumes "\<bar>a\<bar> < 2 ^ 24" and "1 \<le> b" and "a \<noteq> 0"
  shows "\<bar>f32 (of_int a / of_int b) - of_int a / of_int b\<bar> < 1 / of_int b"
proof -
  have b: "0 < real_of_int b" using assms(2) by simp
  have "\<bar>real_of_int a\<bar> < 2 ^ 24"
    using assms(1) by (metis of_int_abs of_int_less_iff of_int_numeral of_int_power)
  then have "\<bar>real_of_int a\<bar> / 2 ^ 24 < 1" by simp
  then have "\<bar>real_of_int a\<bar> / 2 ^ 24 / real_of_int b < 1 / real_of_int b"
    using b by (rule divide_strict_right_mono)
  moreover have "\<bar>real_of_int a / real_of_int b\<bar> / 2 ^ 24 = \<bar>real_of_int a\<bar> / 2 ^ 24 / real_of_int b"
    using b by (simp add: abs_divide)
  ultimately show ?thesis
    using f32_rel_err [of "real_of_int a / real_of_int b"] by linarith
qed

lemma ratio_split:
  assumes "1 \<le> (b::int)"
  shows "real_of_int a / real_of_int b = real_of_int (a div b) + real_of_int (a mod b) / real_of_int b"
proof -
  have "real_of_int a = real_of_int (a div b) * real_of_int b + real_of_int (a mod b)"
    by (metis div_mult_mod_eq of_int_add of_int_mult)
  then show ?thesis
    using assms by (simp add: field_simps)
qed

text \<open>
  The rounded quotient of a numerator below \<open>2 ^ 24\<close> stays between the integer
  quotient and its successor.
\<close>

lemma f32_quotient_nonneg:
  assumes "0 \<le> a" and "a < 2 ^ 24" and "1 \<le> b"
  shows "real_of_int (a div b) \<le> f32 (of_int a / of_int b)"
    and "f32 (of_int a / of_int b) < real_of_int (a div b) + 1"
proof -
  let ?q = "real_of_int a / real_of_int b"
  have b: "0 < real_of_int b" using assms(3) by simp
  have r: "0 \<le> a mod b" "a mod b \<le> b - 1"
    using assms(3) pos_mod_bound [of b a] by (simp_all add: pos_mod_sign)
  have split: "?q = real_of_int (a div b) + real_of_int (a mod b) / real_of_int b"
    by (rule ratio_split [OF assms(3)])
  have frac_hi: "real_of_int (a mod b) / real_of_int b + 1 / real_of_int b \<le> 1"
  proof -
    have "real_of_int (a mod b) + 1 \<le> real_of_int b"
      using r(2) by linarith
    then have "(real_of_int (a mod b) + 1) / real_of_int b \<le> 1"
      using b by simp
    then show ?thesis by (simp add: add_divide_distrib)
  qed
  show "real_of_int (a div b) \<le> f32 ?q"
  proof (cases "a mod b = 0")
    case True
    then have q: "?q = real_of_int (a div b)" using split by simp
    have "0 \<le> a div b"
      using assms(1,3) by (simp add: pos_imp_zdiv_nonneg_iff)
    moreover have "a div b \<le> a"
      using zdiv_mono2 [of a 1 b] assms(1,3) by simp
    ultimately have "\<bar>a div b\<bar> \<le> 2 ^ 24" using assms(2) by simp
    then show ?thesis
      unfolding q by (simp add: f32_of_int)
  next
    case False
    then have a0: "a \<noteq> 0" by auto
    have "1 \<le> a mod b" using False r(1) by simp
    then have "1 / real_of_int b \<le> real_of_int (a mod b) / real_of_int b"
      using b by (simp add: divide_right_mono)
    moreover have "\<bar>f32 ?q - ?q\<bar> < 1 / real_of_int b"
      using assms a0 by (intro f32_ratio_err) auto
    ultimately show ?thesis using split by linarith
  qed
  show "f32 ?q < real_of_int (a div b) + 1"
  proof (cases "a = 0")
    case True
    then show ?thesis by (simp add: f32_def)
  next
    case False
    have "\<bar>f32 ?q - ?q\<bar> < 1 / real_of_int b"
      using assms False by (intro f32_ratio_err) auto
    then show ?thesis using split frac_hi by linarith
  qed
qed

lemma cpp_trunc_f32_nonneg:
  assumes "0 \<le> a" and "a < 2 ^ 24" and "1 \<le> b"
  shows "cpp_trunc (f32 (of_int a / of_int b)) = a div b"
proof -
  note q = f32_quotient_nonneg [OF assms]
  have "0 \<le> a div b" using assms(1,3) by (simp add: pos_imp_zdiv_nonneg_iff)
  then have "0 \<le> f32 (of_int a / of_int b)" using q(1) by linarith
  moreover have "\<lfloor>f32 (of_int a / of_int b)\<rfloor> = a div b"
    using q by (intro floor_unique) auto
  ultimately show ?thesis by (simp add: cpp_trunc_def)
qed

lemma cpp_trunc_minus: "cpp_trunc (- r) = - cpp_trunc r"
  by (auto simp: cpp_trunc_def)

lemma cpp_trunc_f32_ratio:
  assumes "\<bar>a\<bar> < 2 ^ 24" and "1 \<le> b"
  shows "cpp_trunc (f32 (of_int a / of_int b)) = (if 0 \<le> a then a div b else - ((- a) div b))"
proof (cases "0 \<le> a")
  case True
  then show ?thesis
    using assms by (simp add: cpp_trunc_f32_nonneg)
next
  case False
  then have "0 \<le> - a" "- a < 2 ^ 24" using assms(1) by auto
  from cpp_trunc_f32_nonneg [OF this assms(2)]
  have "cpp_trunc (f32 (- (of_int a / of_int b))) = (- a) div b"
    by simp
  then show ?thesis
    using False by (simp add: f32_minus cpp_trunc_minus)
qed

lemma cpp_trunc_mono:
  assumes "r \<le> r'"
  shows "cpp_trunc r \<le> cpp_trunc r'"
proof (cases "0 \<le> r")
  case True
  then show ?thesis
    using assms by (simp add: cpp_trunc_def floor_mono)
next
  case neg: False
  show ?thesis
  proof (cases "0 \<le> r'")
    case True
    have "0 \<le> \<lfloor>- r\<rfloor>" using neg by simp
    moreover have "0 \<le> \<lfloor>r'\<rfloor>" using True by simp
    ultimately have "- \<lfloor>- r\<rfloor> \<le> \<lfloor>r'\<rfloor>" by linarith
    then show ?thesis
      using neg True by (simp add: cpp_trunc_def)
  next
    case False
    have "\<lfloor>- r'\<rfloor> \<le> \<lfloor>- r\<rfloor>"
      using assms by (intro floor_mono) simp
    then show ?thesis
      using neg False by (simp add: cpp_trunc_def)
  qed
qed

lemma cpp_trunc_min: "cpp_trunc (min r r') = min (cpp_trunc r) (cpp_trunc r')"
  using cpp_trunc_mono [of r r'] cpp_trunc_mono [of r' r]
  by (cases "r \<le> r'") (auto simp: min_def)

subsection \<open>Cell size\<close>

lemma cpp_div_pos: "1 \<le> b \<Longrightarrow> cpp_div a b = (if 0 \<le> a then a div b else - ((- a) div b))"
  by (simp add: cpp_div_def)

lemma cpp_div_abs_le:
  assumes "1 \<le> b"
  shows "\<bar>cpp_div a b\<bar> \<le> \<bar>a\<bar>"
proof -
  have "\<bar>a\<bar> div b \<le> \<bar>a\<bar>"
    using zdiv_mono2 [of "\<bar>a\<bar>" 1 b] assms by simp
  moreover have "0 \<le> \<bar>a\<bar> div b"
    using assms by (simp add: pos_imp_zdiv_nonneg_iff)
  moreover have "\<bar>b\<bar> = b" using assms by simp
  ultimately show ?thesis
    unfolding cpp_div_def by (simp split: if_splits)
qed

lemma GetCellSize_in_range:
  assumes "1 \<le> gameWidth" and "1 \<le> gameHeight"
    and "INT_MIN + 2 * BORDER_THICKNESS \<le> screenWidth" and "screenWidth \<le> INT_MAX"
    and "INT_MIN + 2 * BORDER_THICKNESS \<le> screenHeight" and "screenHeight \<le> INT_MAX"
  shows "GetCellSize gameWidth gameHeight screenWidth screenHeight =
           Some (min (cpp_div (screenWidth - 2 * BORDER_THICKNESS) gameWidth)
                     (cpp_div (screenHeight - 2 * BORDER_THICKNESS) gameHeight))"
proof -
  have "wrap32 (screenWidth - BORDER_THICKNESS * 2) = screenWidth - 2 * BORDER_THICKNESS"
    using assms(3,4) by (intro trans [OF wrap32_id]) (simp_all add: BORDER_THICKNESS_def INT_MAX_def)
  moreover have "wrap32 (screenHeight - BORDER_THICKNESS * 2) = screenHeight - 2 * BORDER_THICKNESS"
    using assms(5,6) by (intro trans [OF wrap32_id]) (simp_all add: BORDER_THICKNESS_def INT_MAX_def)
  ultimately show ?thesis
    using assms(1,2) by (simp add: GetCellSize_def Let_def)
qed

lemma GetCellSize_float_in_range:
  assumes "1 \<le> gameWidth" and "gameWidth \<le> 2 ^ 24" and "1 \<le> gameHeight" and "gameHeight \<le> 2 ^ 24"
    and "\<bar>screenWidth - 2 * BORDER_THICKNESS\<bar> < 2 ^ 24"
    and "\<bar>screenHeight - 2 * BORDER_THICKNESS\<bar> < 2 ^ 24"
  shows "GetCellSize_float gameWidth gameHeight screenWidth screenHeight =
           Some (min (cpp_div (screenWidth - 2 * BORDER_THICKNESS) gameWidth)
                     (cpp_div (screenHeight - 2 * BORDER_THICKNESS) gameHeight))"
proof -
  let ?a = "screenWidth - 2 * BORDER_THICKNESS" and ?c = "screenHeight - 2 * BORDER_THICKNESS"
  have wa: "wrap32 (screenWidth - BORDER_THICKNESS * 2) = ?a"
    using assms(5) by (intro trans [OF wrap32_id]) (simp_all add: INT_MIN_def INT_MAX_def)
  have wc: "wrap32 (screenHeight - BORDER_THICKNESS * 2) = ?c"
    using assms(6) by (intro trans [OF wrap32_id]) (simp_all add: INT_MIN_def INT_MAX_def)
  have fa: "f32 (of_int ?a) = of_int ?a"
    using assms(5) by (intro f32_of_int) simp
  have fc: "f32 (of_int ?c) = of_int ?c"
    using assms(6) by (intro f32_of_int) simp
  have fw: "f32 (of_int gameWidth) = of_int gameWidth"
    using assms(1,2) by (intro f32_of_int) simp
  have fh: "f32 (of_int gameHeight) = of_int gameHeight"
    using assms(3,4) by (intro f32_of_int) simp
  have qa: "cpp_trunc (f32 (of_int ?a / of_int gameWidth)) = cpp_div ?a gameWidth"
    using assms(1,5) by (simp only: cpp_trunc_f32_ratio cpp_div_pos)
  have qc: "cpp_trunc (f32 (of_int ?c / of_int gameHeight)) = cpp_div ?c gameHeight"
    using assms(3,6) by (simp only: cpp_trunc_f32_ratio cpp_div_pos)
  have da: "\<bar>cpp_div ?a gameWidth\<bar> \<le> \<bar>?a\<bar>"
    using assms(1) by (rule cpp_div_abs_le)
  have dc: "\<bar>cpp_div ?c gameHeight\<bar> \<le> \<bar>?c\<bar>"
    using assms(3) by (rule cpp_div_abs_le)
  let ?m = "min (cpp_div ?a gameWidth) (cpp_div ?c gameHeight)"
  have "\<bar>?m\<bar> < 2 ^ 24"
    using da dc assms(5,6) by (auto simp: min_def)
  moreover have "\<bar>m\<bar> < 2 ^ 24 \<Longrightarrow> INT_MIN \<le> m \<and> m \<le> INT_MAX" for m :: int
    by (simp add: INT_MIN_def INT_MAX_def abs_less_iff)
  ultimately have range: "INT_MIN \<le> ?m \<and> ?m \<le> INT_MAX"
    by blast
  have gw: "gameWidth \<noteq> 0" and gh: "gameHeight \<noteq> 0"
    using assms(1,3) by auto
  show ?thesis
    unfolding GetCellSize_float_def Let_def wa wc fa fc fw fh cpp_trunc_min qa qc
    using range gw gh by simp
qed

text \<open>
  Outside these ranges the three revisions part: below \<open>INT_MIN + 4\<close> the subtraction
  wraps around, and above \<open>2 ^ 24\<close> the conversion to \<^verbatim>\<open>float\<close> rounds.
\<close>

lemma GetCellSize_wraps: "GetCellSize 1 1 INT_MIN INT_MIN = Some 2147483644"
  by (simp add: GetCellSize_def wrap32_def INT_MIN_def BORDER_THICKNESS_def cpp_div_def)

lemma f32_16777217: "f32 16777217 = 16777216"
proof -
  have "24 \<le> log 2 16777217" "log 2 16777217 < 25"
    by (simp_all add: le_log_iff log_less_iff powr_numeral)
  then have "\<lfloor>log 2 (16777217::real)\<rfloor> = 24"
    by (intro floor_unique) auto
  then show ?thesis
    by (simp add: f32_def round_ties_even_def)
qed

lemma GetCellSize_float_rounds:
  "GetCellSize_float 1 1 16777221 16777221 = Some 16777216
   \<and> GetCellSize 1 1 16777221 16777221 = Some 16777217"
proof -
  have w: "wrap32 (16777221 - BORDER_THICKNESS * 2) = 16777217"
    by (simp add: wrap32_def BORDER_THICKNESS_def)
  have one: "f32 (of_int 1) = 1" and big: "f32 (of_int 16777216) = 16777216"
    using f32_of_int [of 1] f32_of_int [of 16777216] by simp_all
  have "GetCellSize_float 1 1 16777221 16777221 = Some 16777216"
    using one big by (simp add: GetCellSize_float_def w f32_16777217 cpp_trunc_def INT_MIN_def INT_MAX_def)
  moreover have "GetCellSize 1 1 16777221 16777221 = Some 16777217"
    by (simp add: GetCellSize_def w cpp_div_def INT_MIN_def)
  ultimately show ?thesis ..
qed

subsection \<open>The rejection loop and the functions of \<^verbatim>\<open>main.cpp\<close> that call it\<close>

lemma GetNewApplePosition_main_hit:
  assumes "\<exists>p \<in> set draws. p \<notin> set (snake game)"
  shows "\<exists>pos. GetNewApplePosition_main game draws = Some pos
           \<and> pos \<in> set draws \<and> pos \<notin> set (snake game)"
  using assms by (induction draws) auto

lemma newHeadOf_spec: "newHeadOf game front = spec_newHead (direction game) front"
  by (cases "direction game") (simp_all add: newHeadOf_def)

lemma ResetGame_snake_layout:
  "snake (ResetGame game dis) =
     spec_layout (Vector2Int (cpp_div (width game) 2) (cpp_div (height game) 2)) (direction game)"
  by (cases "direction game") (simp_all add: ResetGame_snake)

lemma ResetGame_main_Some:
  assumes "\<exists>p \<in> set draws.
      p \<notin> set (spec_layout (Vector2Int (cpp_div (width game) 2) (cpp_div (height game) 2))
                  (direction game))"
  shows "\<exists>game'. ResetGame_main game draws = Some game'
           \<and> snake game' =
               spec_layout (Vector2Int (cpp_div (width game) 2) (cpp_div (height game) 2))
                 (direction game)
           \<and> width game' = width game \<and> height game' = height game
           \<and> direction game' = direction game \<and> directionQueue game' = directionQueue game
           \<and> apple game' \<in> set draws \<and> apple game' \<notin> set (snake game')"
proof -
  let ?L = "spec_layout (Vector2Int (cpp_div (width game) 2) (cpp_div (height game) 2))
              (direction game)"
  let ?g1 = "game\<lparr>snake := ?L\<rparr>"
  from assms have "\<exists>p \<in> set draws. p \<notin> set (snake ?g1)" by simp
  from GetNewApplePosition_main_hit [OF this]
  obtain pos where pos: "GetNewApplePosition_main ?g1 draws = Some pos"
    "pos \<in> set draws" "pos \<notin> set ?L"
    by auto
  have "ResetGame_main game draws = Some (?g1\<lparr>apple := pos\<rparr>)"
    using pos(1) by (cases "direction game") (simp_all add: ResetGame_main_def Let_def)
  then show ?thesis
    using pos(2,3) by simp
qed

lemma Update_main_over:
  assumes "snake game = front # rest"
    and "\<not> in_grid game (newHeadOf (dequeue game) front)
         \<or> newHeadOf (dequeue game) front \<in> set (snake game)"
  shows "Update_main game draws = Some (True, dequeue game)"
  using assms by (simp add: Update_main_def Let_def IsGameOver_dequeue)

lemma Update_main_Some:
  assumes "Update_main game draws = Some (over, game')" and "snake game = front # rest"
  shows "over = (\<not> in_grid game (newHeadOf (dequeue game) front)
                  \<or> newHeadOf (dequeue game) front \<in> set (snake game))
       \<and> direction game' = direction (dequeue game)
       \<and> directionQueue game' = directionQueue (dequeue game)"
  using assms
  by (auto simp: Update_main_def Let_def IsGameOver_dequeue split: if_splits option.splits)

lemma Update_Some:
  assumes "snake game = front # rest"
  shows "\<exists>game'. Update game dis =
            Some (\<not> in_grid game (newHeadOf (dequeue game) front)
                    \<or> newHeadOf (dequeue game) front \<in> set (snake game), game')
          \<and> direction game' = direction (dequeue game)
          \<and> directionQueue game' = directionQueue (dequeue game)
          \<and> width game' = width game \<and> height game' = height game"
  using assms by (simp add: Update_def Let_def IsGameOver_dequeue)

lemma Update_main_eat:
  assumes "snake game = front # rest"
    and "newHeadOf (dequeue game) front = apple game"
    and "in_grid game (apple game)"
    and "apple game \<notin> set (snake game)"
    and "\<exists>p \<in> set draws. p \<notin> set (apple game # snake game)"
  shows "\<exists>game'. Update_main game draws = Some (False, game')
           \<and> width game' = width game \<and> height game' = height game
           \<and> snake game' = apple game # snake game
           \<and> apple game' \<in> set draws \<and> apple game' \<notin> set (snake game')"
proof -
  let ?g2 = "(dequeue game)\<lparr>snake := apple game # snake game\<rparr>"
  from assms(5) have "\<exists>p \<in> set draws. p \<notin> set (snake ?g2)" by simp
  from GetNewApplePosition_main_hit [OF this]
  obtain pos where pos: "GetNewApplePosition_main ?g2 draws = Some pos"
    "pos \<in> set draws" "pos \<notin> set (apple game # snake game)"
    by auto
  have "Update_main game draws = Some (False, ?g2\<lparr>apple := pos\<rparr>)"
    using assms(1-4) pos(1) by (simp add: Update_main_def Let_def IsGameOver_dequeue)
  then show ?thesis
    using pos(2,3) by simp
qed

lemma Update_main_eat_full:
  assumes "snake game = front # rest"
    and "newHeadOf (dequeue game) front = apple game"
    and "in_grid game (apple game)"
    and "apple game \<notin> set (snake game)"
    and "\<And>p. p \<in> set draws \<Longrightarrow> p \<in> set (apple game # snake game)"
  shows "Update_main game draws = None"
proof -
  let ?g2 = "(dequeue game)\<lparr>snake := apple game # snake game\<rparr>"
  have "GetNewApplePosition_main ?g2 draws = None"
    using assms(5) by (induction draws) auto
  then show ?thesis
    using assms(1-4) by (simp add: Update_main_def Let_def IsGameOver_dequeue)
qed


section \<open>The simulation step: game over\<close>

text \<open>
  C1, as the code has it. For a game with a non-empty snake, \<^verbatim>\<open>Update\<close> returns, and it
  returns true exactly when the new head cell (the old head plus the offset of the
  direction committed after the queue is consumed) lies outside the grid or equals a cell
  of the snake as it is before the move. The tail cell is one of those cells: a move into
  the cell the tail occupies returns true, whether or not food is eaten.
\<close>

theorem Update_game_over_iff:
  assumes "snake game = front # rest"
  shows "(\<exists>game'. Update game dis =
           Some (\<not> in_grid game (newHeadOf (dequeue game) front)
                   \<or> newHeadOf (dequeue game) front \<in> set (snake game), game'))
       \<and> (newHeadOf (dequeue game) front = last (snake game)
             \<longrightarrow> (\<exists>game'. Update game dis = Some (True, game')))"
proof -
  have "last (snake game) \<in> set (snake game)"
    using assms by simp
  then show ?thesis
    using Update_over [OF assms, of dis] by auto
qed

text \<open>The theorem at the curled snake: the right turn into the tail cell ends the game.\<close>

theorem Update_game_over_iff_witness:
  "snake tail_chase_game = Vector2Int 1 1 # [Vector2Int 1 2, Vector2Int 2 2, Vector2Int 2 1]
   \<and> newHeadOf (dequeue tail_chase_game) (Vector2Int 1 1) = last (snake tail_chase_game)
   \<and> (\<exists>game'. Update tail_chase_game lowest = Some (True, game'))"
proof -
  have body: "snake tail_chase_game =
      Vector2Int 1 1 # [Vector2Int 1 2, Vector2Int 2 2, Vector2Int 2 1]"
    by (simp add: tail_chase_game_def)
  have tail: "newHeadOf (dequeue tail_chase_game) (Vector2Int 1 1) = last (snake tail_chase_game)"
    by (simp add: tail_chase_game_def dequeue_def newHeadOf_def)
  from Update_game_over_iff [OF body, of lowest] tail
  have "\<exists>game'. Update tail_chase_game lowest = Some (True, game')"
    by blast
  with body tail show ?thesis by blast
qed

text \<open>
  The tail-vacancy exception fails: the curled snake turns right into the cell of its
  tail, the cell is inside the grid and holds no food, and \<^verbatim>\<open>Update\<close> returns true.
\<close>

theorem Update_tail_cell_collides:
  "newHeadOf (dequeue tail_chase_game) (hd (snake tail_chase_game)) = last (snake tail_chase_game)
   \<and> newHeadOf (dequeue tail_chase_game) (hd (snake tail_chase_game)) \<noteq> apple tail_chase_game
   \<and> in_grid tail_chase_game (newHeadOf (dequeue tail_chase_game) (hd (snake tail_chase_game)))
   \<and> Update tail_chase_game lowest = Some (True, dequeue tail_chase_game)"
  by (simp add: tail_chase_game_def Update_def dequeue_def newHeadOf_def IsGameOver_def
      in_grid_def)

section \<open>The simulation step: eating\<close>




section \<open>Reset\<close>



text \<open>
  C5, as the code has it. \<^verbatim>\<open>ResetGame\<close> assigns the snake and the food and nothing
  else: the grid width and height, the committed direction and the pending-direction
  queue are what they were. The queue is not cleared.
\<close>

theorem ResetGame_frame:
  "width (ResetGame game dis) = width game \<and> height (ResetGame game dis) = height game
   \<and> direction (ResetGame game dis) = direction game
   \<and> directionQueue (ResetGame game dis) = directionQueue game"
  by (simp add: ResetGame_def Let_def)

text \<open>
  The snake of \<open>wall_game\<close> dies on its first queued turn; the second queued turn is
  still in the queue after the reset.
\<close>

theorem ResetGame_keeps_queue:
  "Update wall_game lowest = Some (True, dequeue wall_game)
   \<and> directionQueue (ResetGame (dequeue wall_game) lowest) = [DOWN]
   \<and> directionQueue (ResetGame (dequeue wall_game) lowest) \<noteq> []"
  by (simp add: ResetGame_def Let_def wall_game_def Update_def dequeue_def newHeadOf_def
      IsGameOver_def)

section \<open>The input queue\<close>

text \<open>
  C4. A request equal to the last queued direction is to be dropped. \<^verbatim>\<open>QueueDirection\<close>
  of \<^verbatim>\<open>snake.cpp\<close> appends it: with UP queued and committed direction RIGHT, a second
  request UP makes the queue UP, UP. \<^verbatim>\<open>QueueDirection\<close> of \<^verbatim>\<open>main.cpp\<close> leaves the
  same game unchanged.
\<close>

theorem QueueDirection_duplicate_appended:
  "directionQueue dup_game \<noteq> [] \<and> last (directionQueue dup_game) = UP
   \<and> directionQueue (QueueDirection dup_game UP) = [UP, UP]
   \<and> QueueDirection_main dup_game UP = dup_game"
  by (simp add: dup_game_def QueueDirection_def QueueDirection_main_def)

text \<open>
  C6. If the committed direction followed by the queue holds no two adjacent opposite
  directions and the queue has at most 3 entries, the same is true after any sequence of
  \<^verbatim>\<open>QueueDirection\<close> calls, in \<^verbatim>\<open>snake.cpp\<close> and in \<^verbatim>\<open>main.cpp\<close>.
\<close>

theorem Enqueue_sequence_invariant:
  assumes "no_reversal (direction game # directionQueue game)"
    and "length (directionQueue game) \<le> 3"
  shows "no_reversal (direction (foldl QueueDirection game ds)
                        # directionQueue (foldl QueueDirection game ds))
       \<and> length (directionQueue (foldl QueueDirection game ds)) \<le> 3
       \<and> no_reversal (direction (foldl QueueDirection_main game ds)
                        # directionQueue (foldl QueueDirection_main game ds))
       \<and> length (directionQueue (foldl QueueDirection_main game ds)) \<le> 3"
proof -
  from assms have ok: "queue_ok game" by (simp add: queue_ok_def)
  have "queue_ok (foldl QueueDirection game ds)"
    by (rule foldl_queue_ok [where f = QueueDirection])
      (auto intro: QueueDirection_queue_ok ok)
  moreover have "queue_ok (foldl QueueDirection_main game ds)"
    by (rule foldl_queue_ok [where f = QueueDirection_main])
      (auto intro: QueueDirection_main_queue_ok ok)
  ultimately show ?thesis by (simp add: queue_ok_def)
qed

text \<open>
  The theorem at a burst of six key presses on a game heading right with UP queued: the
  reversals and the presses beyond the third slot are dropped.
\<close>

theorem Enqueue_sequence_invariant_witness:
  "no_reversal (direction dup_game # directionQueue dup_game)
   \<and> length (directionQueue dup_game) \<le> 3
   \<and> directionQueue (foldl QueueDirection dup_game [DOWN, LEFT, RIGHT, DOWN, UP, LEFT])
       = [UP, LEFT, DOWN]
   \<and> no_reversal (direction (foldl QueueDirection dup_game [DOWN, LEFT, RIGHT, DOWN, UP, LEFT])
        # directionQueue (foldl QueueDirection dup_game [DOWN, LEFT, RIGHT, DOWN, UP, LEFT]))
   \<and> length (directionQueue (foldl QueueDirection_main dup_game [DOWN, LEFT, RIGHT, DOWN, UP, LEFT]))
       \<le> 3"
proof -
  have h1: "no_reversal (direction dup_game # directionQueue dup_game)"
    and h2: "length (directionQueue dup_game) \<le> 3"
    by (simp_all add: dup_game_def)
  have q: "directionQueue (foldl QueueDirection dup_game [DOWN, LEFT, RIGHT, DOWN, UP, LEFT])
      = [UP, LEFT, DOWN]"
    by (simp add: dup_game_def QueueDirection_def)
  from Enqueue_sequence_invariant [OF h1 h2, of "[DOWN, LEFT, RIGHT, DOWN, UP, LEFT]"] h1 h2 q
  show ?thesis by blast
qed

section \<open>Food placement\<close>

text \<open>
  \<^verbatim>\<open>GetNewApplePosition\<close> of \<^verbatim>\<open>snake.cpp\<close> is a total function: its two loops terminate
  and it returns a cell. If some grid cell is off the snake, the cell returned is a grid
  cell off the snake; if the snake occupies every grid cell, the cell returned is
  (0, 0).
\<close>

lemma PlaceFood_free_or_sentinel:
  assumes "uniform_draw dis"
  shows "((\<exists>p. is_free game p) \<longrightarrow> is_free game (GetNewApplePosition game dis))
       \<and> ((\<forall>p. \<not> is_free game p) \<longrightarrow> GetNewApplePosition game dis = Vector2Int 0 0)"
  using assms GetNewApplePosition_free GetNewApplePosition_full by blast

text \<open>
  C7. The food placer is to return the cell (0, 0) when the snake occupies every grid
  cell. \<^verbatim>\<open>GetNewApplePosition\<close> of \<^verbatim>\<open>snake.cpp\<close> does. The \<^verbatim>\<open>do ... while\<close> loop of
  \<^verbatim>\<open>part_001\<close> and \<^verbatim>\<open>main.cpp\<close> does not return there: every cell it can draw lies in
  the grid and so on the snake, and it draws again, however many draws it is given.
\<close>

theorem GetNewApplePosition_main_full_grid:
  assumes "\<forall>p. \<not> is_free game p" and "\<forall>p \<in> set draws. in_grid game p"
  shows "GetNewApplePosition_main game draws = None
       \<and> GetNewApplePosition game dis = Vector2Int 0 0"
proof
  have "p \<in> set (snake game)" if "in_grid game p" for p
    using assms(1) that by (auto simp: is_free_def)
  with assms(2) have "\<forall>p \<in> set draws. p \<in> set (snake game)"
    by blast
  then show "GetNewApplePosition_main game draws = None"
    by (induction draws) simp_all
  have "set (emptyCells_x_loop game 0 []) = {}"
    using assms(1) by (simp add: set_emptyCells)
  then show "GetNewApplePosition game dis = Vector2Int 0 0"
    by (simp add: GetNewApplePosition_def)
qed

text \<open>
  The theorem on the 2 by 2 grid that the snake fills, with eight draws that visit
  every cell twice. Both food placers are computed from the definitions; the theorem
  gives the same for a generator that draws the upper end of the range.
\<close>

theorem GetNewApplePosition_main_full_grid_witness:
  "(\<forall>p. \<not> is_free full_game p)
   \<and> in_grid full_game (Vector2Int 0 0) \<and> in_grid full_game (Vector2Int 1 0)
   \<and> in_grid full_game (Vector2Int 0 1) \<and> in_grid full_game (Vector2Int 1 1)
   \<and> GetNewApplePosition_main full_game
        [Vector2Int 0 0, Vector2Int 1 0, Vector2Int 0 1, Vector2Int 1 1,
         Vector2Int 1 1, Vector2Int 0 1, Vector2Int 1 0, Vector2Int 0 0] = None
   \<and> GetNewApplePosition full_game lowest = Vector2Int 0 0
   \<and> GetNewApplePosition full_game highest = Vector2Int 0 0"
proof -
  have full: "\<forall>p. \<not> is_free full_game p"
  proof
    fix p
    show "\<not> is_free full_game p"
    proof (cases p)
      case (Vector2Int a b)
      have "0 \<le> a \<and> a < 2 \<and> 0 \<le> b \<and> b < 2 \<longrightarrow> (a = 0 \<or> a = 1) \<and> (b = 0 \<or> b = 1)"
        by arith
      then show ?thesis
        using Vector2Int by (auto simp: is_free_def in_grid_def full_game_def)
    qed
  qed
  have draws: "\<forall>p \<in> set [Vector2Int 0 0, Vector2Int 1 0, Vector2Int 0 1, Vector2Int 1 1,
                  Vector2Int 1 1, Vector2Int 0 1, Vector2Int 1 0, Vector2Int 0 0].
         in_grid full_game p"
    by (simp add: in_grid_def full_game_def)
  have cells: "in_grid full_game (Vector2Int 0 0) \<and> in_grid full_game (Vector2Int 1 0)
      \<and> in_grid full_game (Vector2Int 0 1) \<and> in_grid full_game (Vector2Int 1 1)"
    by (simp add: in_grid_def full_game_def)
  have run: "GetNewApplePosition_main full_game
        [Vector2Int 0 0, Vector2Int 1 0, Vector2Int 0 1, Vector2Int 1 1,
         Vector2Int 1 1, Vector2Int 0 1, Vector2Int 1 0, Vector2Int 0 0] = None"
    by (simp add: full_game_def)
  have sentinel: "GetNewApplePosition full_game lowest = Vector2Int 0 0"
    by (simp add: full_game_def GetNewApplePosition_def emptyCells_x_loop.simps
        emptyCells_y_loop.simps)
  from GetNewApplePosition_main_full_grid [OF full draws, of highest]
  have "GetNewApplePosition full_game highest = Vector2Int 0 0" ..
  with full cells run sentinel show ?thesis by blast
qed

section \<open>The simulation step: what a collision leaves behind\<close>

text \<open>
  C8. When \<^verbatim>\<open>Update\<close> returns true, the snake body and the food position are exactly
  what they were before the call.
\<close>

theorem Update_collision_keeps_state:
  assumes "Update game dis = Some (True, game')"
  shows "snake game' = snake game \<and> apple game' = apple game"
  using assms
  by (auto simp: Update_def Let_def split: list.splits if_splits)

text \<open>The theorem at the snake that turns into the left wall.\<close>

theorem Update_collision_keeps_state_witness:
  "Update wall_game lowest = Some (True, dequeue wall_game)
   \<and> snake (dequeue wall_game) = [Vector2Int 0 1, Vector2Int 0 2, Vector2Int 0 3]
   \<and> apple (dequeue wall_game) = Vector2Int 3 3"
proof -
  have h: "Update wall_game lowest = Some (True, dequeue wall_game)"
    by (simp add: wall_game_def Update_def dequeue_def newHeadOf_def IsGameOver_def)
  from Update_collision_keeps_state [OF h]
  have "snake (dequeue wall_game) = snake wall_game \<and> apple (dequeue wall_game) = apple wall_game" .
  moreover have "snake wall_game = [Vector2Int 0 1, Vector2Int 0 2, Vector2Int 0 3]"
    and "apple wall_game = Vector2Int 3 3"
    by (simp_all add: wall_game_def)
  ultimately show ?thesis using h by simp
qed

text \<open>
  C10. With a non-empty queue and a non-empty snake, \<^verbatim>\<open>Update\<close> returns. The flag it
  returns is the collision test for the cell one step from the head in the direction
  that was at the front of the queue, not in the direction committed before the call.
  In the game it leaves, the committed direction is that former front and the queue is
  the rest, also when it returns true; \<^verbatim>\<open>Update\<close> of \<^verbatim>\<open>main.cpp\<close> returns the same on a
  collision. The loop of \<^verbatim>\<open>main\<close> then resets that game, so the new snake is laid out
  behind the centre cell against the dequeued direction.
\<close>

theorem Update_dequeues_before_check:
  assumes "directionQueue game = d # rest" and "snake game = front # body"
  shows "\<exists>game'. Update game dis =
            Some (\<not> in_grid game (spec_newHead d front) \<or> spec_newHead d front \<in> set (snake game),
                  game')
          \<and> direction game' = d \<and> directionQueue game' = rest
          \<and> (\<not> in_grid game (spec_newHead d front) \<or> spec_newHead d front \<in> set (snake game) \<longrightarrow>
               Update_main game draws = Some (True, game')
             \<and> main_move game dis dis' = Some (ResetGame game' dis')
             \<and> direction (ResetGame game' dis') = d
             \<and> directionQueue (ResetGame game' dis') = rest
             \<and> snake (ResetGame game' dis') =
                 spec_layout (Vector2Int (cpp_div (width game) 2) (cpp_div (height game) 2)) d
             \<and> ((\<exists>p \<in> set draws'.
                    p \<notin> set (spec_layout
                               (Vector2Int (cpp_div (width game) 2) (cpp_div (height game) 2)) d)) \<longrightarrow>
                 (\<exists>game''. main_move_main game draws draws' = Some game''
                    \<and> direction game'' = d \<and> directionQueue game'' = rest
                    \<and> snake game'' =
                        spec_layout (Vector2Int (cpp_div (width game) 2) (cpp_div (height game) 2))
                          d)))"
proof -
  let ?over = "\<not> in_grid game (spec_newHead d front) \<or> spec_newHead d front \<in> set (snake game)"
  let ?L = "spec_layout (Vector2Int (cpp_div (width game) 2) (cpp_div (height game) 2)) d"
  let ?g1 = "game\<lparr>direction := d, directionQueue := rest\<rparr>"
  have deq: "dequeue game = ?g1"
    using assms(1) by (simp add: dequeue_def)
  have nh: "newHeadOf ?g1 front = spec_newHead d front"
    by (cases d) (simp_all add: newHeadOf_def)
  have go: "IsGameOver ?g1 p = (\<not> in_grid game p \<or> p \<in> set (snake game))" for p
    by (auto simp: IsGameOver_def in_grid_def)
  have upd: "\<exists>game'. Update game dis = Some (?over, game')
      \<and> direction game' = d \<and> directionQueue game' = rest \<and> (?over \<longrightarrow> game' = ?g1)"
    using assms(2) by (simp add: Update_def Let_def deq nh go)
  then obtain game' where g: "Update game dis = Some (?over, game')"
    "direction game' = d" "directionQueue game' = rest" "?over \<longrightarrow> game' = ?g1"
    by blast
  have after: "Update_main game draws = Some (True, game')
      \<and> main_move game dis dis' = Some (ResetGame game' dis')
      \<and> direction (ResetGame game' dis') = d
      \<and> directionQueue (ResetGame game' dis') = rest
      \<and> snake (ResetGame game' dis') = ?L
      \<and> ((\<exists>p \<in> set draws'. p \<notin> set ?L) \<longrightarrow>
          (\<exists>game''. main_move_main game draws draws' = Some game''
             \<and> direction game'' = d \<and> directionQueue game'' = rest \<and> snake game'' = ?L))"
    if over: ?over
  proof -
    from g(4) over have g1: "game' = ?g1" by simp
    have m: "Update_main game draws = Some (True, ?g1)"
      using assms(2) over by (simp add: Update_main_def Let_def deq nh go)
    have mm: "main_move game dis dis' = Some (ResetGame ?g1 dis')"
      using g(1) over by (simp add: main_move_def g1)
    have lay: "snake (ResetGame ?g1 dis') = ?L"
      by (cases d) (simp_all add: ResetGame_def Let_def)
    have frame: "direction (ResetGame ?g1 dis') = d" "directionQueue (ResetGame ?g1 dis') = rest"
      by (simp_all add: ResetGame_def Let_def)
    have loop: "\<exists>game''. main_move_main game draws draws' = Some game''
        \<and> direction game'' = d \<and> directionQueue game'' = rest \<and> snake game'' = ?L"
      if off: "\<exists>p \<in> set draws'. p \<notin> set ?L"
    proof -
      have hit: "\<exists>pos. GetNewApplePosition_main h ds = Some pos"
        if "\<exists>p \<in> set ds. p \<notin> set (snake h)" for h ds
        using that by (induction ds) auto
      let ?g2 = "?g1\<lparr>snake := ?L\<rparr>"
      from off have "\<exists>p \<in> set draws'. p \<notin> set (snake ?g2)" by simp
      from hit [OF this] obtain pos where pos: "GetNewApplePosition_main ?g2 draws' = Some pos" ..
      have "ResetGame_main ?g1 draws' = Some (?g2\<lparr>apple := pos\<rparr>)"
        using pos by (cases d) (simp_all add: ResetGame_main_def Let_def)
      then have "main_move_main game draws draws' = Some (?g2\<lparr>apple := pos\<rparr>)"
        using m by (simp add: main_move_main_def)
      then show ?thesis by simp
    qed
    show ?thesis
      unfolding g1 using m mm lay frame loop by simp
  qed
  show ?thesis
    using g(1-3) after by blast
qed

text \<open>
  The theorem at the snake that runs up the left wall with LEFT queued. One step up is
  the free cell (0, 0); one step left is outside the grid. The snake dies, and both
  revisions lay the new snake out heading left, its body to the right of the centre.
  The step and the resets are computed from the definitions; the theorem gives the same
  game.
\<close>

theorem Update_dequeues_before_check_witness:
  "directionQueue wall_game = LEFT # [DOWN]
   \<and> snake wall_game = Vector2Int 0 1 # [Vector2Int 0 2, Vector2Int 0 3]
   \<and> direction wall_game = UP
   \<and> in_grid wall_game (spec_newHead UP (Vector2Int 0 1))
   \<and> spec_newHead UP (Vector2Int 0 1) \<notin> set (snake wall_game)
   \<and> \<not> in_grid wall_game (spec_newHead LEFT (Vector2Int 0 1))
   \<and> Update wall_game lowest
       = Some (True, wall_game\<lparr>direction := LEFT, directionQueue := [DOWN]\<rparr>)
   \<and> Update_main wall_game []
       = Some (True, wall_game\<lparr>direction := LEFT, directionQueue := [DOWN]\<rparr>)
   \<and> snake (ResetGame (wall_game\<lparr>direction := LEFT, directionQueue := [DOWN]\<rparr>) lowest)
       = [Vector2Int 2 2, Vector2Int 3 2, Vector2Int 4 2]
   \<and> main_move wall_game lowest lowest
       = Some (wall_game\<lparr>direction := LEFT, directionQueue := [DOWN],
                 snake := [Vector2Int 2 2, Vector2Int 3 2, Vector2Int 4 2],
                 apple := Vector2Int 0 0\<rparr>)
   \<and> main_move_main wall_game [] [Vector2Int 3 2, Vector2Int 0 0]
       = Some (wall_game\<lparr>direction := LEFT, directionQueue := [DOWN],
                 snake := [Vector2Int 2 2, Vector2Int 3 2, Vector2Int 4 2],
                 apple := Vector2Int 0 0\<rparr>)
   \<and> (\<exists>game'. Update wall_game lowest = Some (True, game')
         \<and> Update_main wall_game [] = Some (True, game')
         \<and> direction game' = LEFT \<and> directionQueue game' = [DOWN]
         \<and> main_move wall_game lowest lowest = Some (ResetGame game' lowest)
         \<and> direction (ResetGame game' lowest) = LEFT
         \<and> snake (ResetGame game' lowest) = [Vector2Int 2 2, Vector2Int 3 2, Vector2Int 4 2])
   \<and> (\<exists>game''. main_move_main wall_game [] [Vector2Int 3 2, Vector2Int 0 0] = Some game''
         \<and> direction game'' = LEFT
         \<and> snake game'' = [Vector2Int 2 2, Vector2Int 3 2, Vector2Int 4 2])"
proof -
  have h1: "directionQueue wall_game = LEFT # [DOWN]"
    and h2: "snake wall_game = Vector2Int 0 1 # [Vector2Int 0 2, Vector2Int 0 3]"
    and h3: "direction wall_game = UP"
    and up: "in_grid wall_game (spec_newHead UP (Vector2Int 0 1))"
      "spec_newHead UP (Vector2Int 0 1) \<notin> set (snake wall_game)"
    and out: "\<not> in_grid wall_game (spec_newHead LEFT (Vector2Int 0 1))"
    by (simp_all add: wall_game_def in_grid_def)
  have step: "Update wall_game lowest
       = Some (True, wall_game\<lparr>direction := LEFT, directionQueue := [DOWN]\<rparr>)"
    by (simp add: wall_game_def Update_def dequeue_def newHeadOf_def IsGameOver_def)
  have step_main: "Update_main wall_game []
       = Some (True, wall_game\<lparr>direction := LEFT, directionQueue := [DOWN]\<rparr>)"
    by (simp add: wall_game_def Update_main_def dequeue_def newHeadOf_def IsGameOver_def)
  have reset: "snake (ResetGame (wall_game\<lparr>direction := LEFT, directionQueue := [DOWN]\<rparr>) lowest)
       = [Vector2Int 2 2, Vector2Int 3 2, Vector2Int 4 2]"
    by (simp add: wall_game_def ResetGame_def Let_def cpp_div_def)
  have move: "main_move wall_game lowest lowest
       = Some (wall_game\<lparr>direction := LEFT, directionQueue := [DOWN],
                 snake := [Vector2Int 2 2, Vector2Int 3 2, Vector2Int 4 2],
                 apple := Vector2Int 0 0\<rparr>)"
    by (simp add: wall_game_def main_move_def Update_def dequeue_def newHeadOf_def
        IsGameOver_def ResetGame_def Let_def cpp_div_def GetNewApplePosition_def lowest_def
        emptyCells_x_loop.simps emptyCells_y_loop.simps)
  have reset_main: "main_move_main wall_game [] [Vector2Int 3 2, Vector2Int 0 0]
       = Some (wall_game\<lparr>direction := LEFT, directionQueue := [DOWN],
                 snake := [Vector2Int 2 2, Vector2Int 3 2, Vector2Int 4 2],
                 apple := Vector2Int 0 0\<rparr>)"
    by (simp add: wall_game_def main_move_main_def Update_main_def dequeue_def newHeadOf_def
        IsGameOver_def ResetGame_main_def Let_def cpp_div_def)
  have lay: "spec_layout (Vector2Int (cpp_div (width wall_game) 2) (cpp_div (height wall_game) 2)) LEFT
      = [Vector2Int 2 2, Vector2Int 3 2, Vector2Int 4 2]"
    by (simp add: wall_game_def cpp_div_def)
  have draws: "\<exists>p \<in> set [Vector2Int 3 2, Vector2Int 0 0].
      p \<notin> set (spec_layout (Vector2Int (cpp_div (width wall_game) 2) (cpp_div (height wall_game) 2)) LEFT)"
    unfolding lay by simp
  from Update_dequeues_before_check [OF h1 h2, of lowest "[]" lowest "[Vector2Int 3 2, Vector2Int 0 0]"]
    out draws
  have "(\<exists>game'. Update wall_game lowest = Some (True, game')
         \<and> Update_main wall_game [] = Some (True, game')
         \<and> direction game' = LEFT \<and> directionQueue game' = [DOWN]
         \<and> main_move wall_game lowest lowest = Some (ResetGame game' lowest)
         \<and> direction (ResetGame game' lowest) = LEFT
         \<and> snake (ResetGame game' lowest) =
             spec_layout (Vector2Int (cpp_div (width wall_game) 2) (cpp_div (height wall_game) 2)) LEFT)
      \<and> (\<exists>game''. main_move_main wall_game [] [Vector2Int 3 2, Vector2Int 0 0] = Some game''
         \<and> direction game'' = LEFT
         \<and> snake game'' =
             spec_layout (Vector2Int (cpp_div (width wall_game) 2) (cpp_div (height wall_game) 2)) LEFT)"
    by auto
  then have "(\<exists>game'. Update wall_game lowest = Some (True, game')
         \<and> Update_main wall_game [] = Some (True, game')
         \<and> direction game' = LEFT \<and> directionQueue game' = [DOWN]
         \<and> main_move wall_game lowest lowest = Some (ResetGame game' lowest)
         \<and> direction (ResetGame game' lowest) = LEFT
         \<and> snake (ResetGame game' lowest) = [Vector2Int 2 2, Vector2Int 3 2, Vector2Int 4 2])
      \<and> (\<exists>game''. main_move_main wall_game [] [Vector2Int 3 2, Vector2Int 0 0] = Some game''
         \<and> direction game'' = LEFT
         \<and> snake game'' = [Vector2Int 2 2, Vector2Int 3 2, Vector2Int 4 2])"
    unfolding lay .
  with h1 h2 h3 up out step step_main reset move reset_main show ?thesis by blast
qed

section \<open>Grid geometry\<close>

text \<open>
  C9, as the code has it. For 32-bit arguments with grid dimensions of at least 1 and
  screen extents of at least \<open>INT_MIN + 4\<close>, \<^verbatim>\<open>GetCellSize\<close> of \<^verbatim>\<open>main.cpp\<close> and
  \<^verbatim>\<open>snake.cpp\<close> returns the smaller of the two quotients (screen extent minus 4, twice
  the border of 2) / (grid extent), each truncated towards zero: the floor of the
  quotient when the screen extent is at least 4, and minus the floor of its magnitude
  when the screen extent is below 4. The value is not clamped. \<^verbatim>\<open>GetCellSize\<close> of
  \<^verbatim>\<open>part_001\<close>, which divides in \<^verbatim>\<open>float\<close>, returns the same value when the grid
  dimensions are at most \<open>2 ^ 24\<close> and the screen extents minus 4 are below \<open>2 ^ 24\<close> in
  magnitude.
\<close>

theorem GetCellSize_truncates:
  assumes "1 \<le> gameWidth" and "1 \<le> gameHeight"
    and "- (2 ^ 31) + 4 \<le> screenWidth" and "screenWidth < 2 ^ 31"
    and "- (2 ^ 31) + 4 \<le> screenHeight" and "screenHeight < 2 ^ 31"
  shows "GetCellSize gameWidth gameHeight screenWidth screenHeight =
           Some (min (if 4 \<le> screenWidth
                      then (screenWidth - 4) div gameWidth
                      else - ((4 - screenWidth) div gameWidth))
                     (if 4 \<le> screenHeight
                      then (screenHeight - 4) div gameHeight
                      else - ((4 - screenHeight) div gameHeight)))
       \<and> (gameWidth \<le> 2 ^ 24 \<and> gameHeight \<le> 2 ^ 24
            \<and> \<bar>screenWidth - 4\<bar> < 2 ^ 24 \<and> \<bar>screenHeight - 4\<bar> < 2 ^ 24 \<longrightarrow>
          GetCellSize_float gameWidth gameHeight screenWidth screenHeight =
            Some (min (if 4 \<le> screenWidth
                       then (screenWidth - 4) div gameWidth
                       else - ((4 - screenWidth) div gameWidth))
                      (if 4 \<le> screenHeight
                       then (screenHeight - 4) div gameHeight
                       else - ((4 - screenHeight) div gameHeight))))"
proof -
  have w: "wrap32 (screenWidth - BORDER_THICKNESS * 2) = screenWidth - 4"
    using assms(3,4) by (simp add: wrap32_def BORDER_THICKNESS_def)
  have h: "wrap32 (screenHeight - BORDER_THICKNESS * 2) = screenHeight - 4"
    using assms(5,6) by (simp add: wrap32_def BORDER_THICKNESS_def)
  have q: "cpp_div (v - 4) g =
      (if 4 \<le> v then (v - 4) div g else - ((4 - v) div g))" if "1 \<le> g" for v g
    using that by (simp add: cpp_div_def)
  have int: "GetCellSize gameWidth gameHeight screenWidth screenHeight =
      Some (min (if 4 \<le> screenWidth then (screenWidth - 4) div gameWidth
                 else - ((4 - screenWidth) div gameWidth))
                (if 4 \<le> screenHeight then (screenHeight - 4) div gameHeight
                 else - ((4 - screenHeight) div gameHeight)))"
    using assms(1,2)
    by (simp add: GetCellSize_def Let_def w h q [OF assms(1)] q [OF assms(2)])
  have float: "GetCellSize_float gameWidth gameHeight screenWidth screenHeight =
      Some (min (if 4 \<le> screenWidth then (screenWidth - 4) div gameWidth
                 else - ((4 - screenWidth) div gameWidth))
                (if 4 \<le> screenHeight then (screenHeight - 4) div gameHeight
                 else - ((4 - screenHeight) div gameHeight)))"
    if r: "gameWidth \<le> 2 ^ 24 \<and> gameHeight \<le> 2 ^ 24
            \<and> \<bar>screenWidth - 4\<bar> < 2 ^ 24 \<and> \<bar>screenHeight - 4\<bar> < 2 ^ 24"
  proof -
    let ?a = "screenWidth - 4" and ?c = "screenHeight - 4"
    let ?m = "min (cpp_div ?a gameWidth) (cpp_div ?c gameHeight)"
    have fa: "f32 (of_int ?a) = of_int ?a" and fc: "f32 (of_int ?c) = of_int ?c"
      using r by (intro f32_of_int, simp)+
    have fw: "f32 (of_int gameWidth) = of_int gameWidth"
      and fh: "f32 (of_int gameHeight) = of_int gameHeight"
      using r assms(1,2) by (intro f32_of_int, simp)+
    have qa: "cpp_trunc (f32 (of_int ?a / of_int gameWidth)) = cpp_div ?a gameWidth"
      using assms(1) r cpp_trunc_f32_ratio [of ?a gameWidth] by (simp add: q)
    have qc: "cpp_trunc (f32 (of_int ?c / of_int gameHeight)) = cpp_div ?c gameHeight"
      using assms(2) r cpp_trunc_f32_ratio [of ?c gameHeight] by (simp add: q)
    have "\<bar>cpp_div ?a gameWidth\<bar> \<le> \<bar>?a\<bar>" "\<bar>cpp_div ?c gameHeight\<bar> \<le> \<bar>?c\<bar>"
      using assms(1,2) by (simp_all only: cpp_div_abs_le)
    then have "\<bar>?m\<bar> < 2 ^ 24"
      using r by (auto simp: min_def)
    moreover have "\<bar>m\<bar> < 2 ^ 24 \<Longrightarrow> INT_MIN \<le> m \<and> m \<le> INT_MAX" for m :: int
      by (simp add: INT_MIN_def INT_MAX_def abs_less_iff)
    ultimately have range: "INT_MIN \<le> ?m \<and> ?m \<le> INT_MAX"
      by blast
    have "GetCellSize_float gameWidth gameHeight screenWidth screenHeight = Some ?m"
      unfolding GetCellSize_float_def Let_def w h fa fc fw fh cpp_trunc_min qa qc
      using range assms(1,2) by simp
    then show ?thesis
      by (simp only: q [OF assms(1)] q [OF assms(2)])
  qed
  show ?thesis
    using int float by blast
qed

text \<open>
  The theorem at the window \<^verbatim>\<open>main\<close> opens, 800 by 450 pixels on the 25 by 25 grid, at a
  window of 10 by 12 pixels on a grid of one cell, and at a window of 1 by 1 pixel. The
  integer version and, at the two small windows, the float version are computed from the
  definitions: at 1 by 1 pixel the quotient -3 / 25 rounds to \<open>- 16106127 / 2 ^ 27\<close> and
  the cast gives 0.
\<close>

theorem GetCellSize_truncates_witness:
  "(1::int) \<le> 25 \<and> - (2 ^ 31) + 4 \<le> (800::int) \<and> (450::int) < 2 ^ 31
   \<and> GetCellSize 25 25 800 450 = Some 17
   \<and> GetCellSize 1 1 10 12 = Some 6
   \<and> GetCellSize 25 25 1 1 = Some 0
   \<and> f32 (- (3 / 25)) = - (16106127 / 134217728)
   \<and> cpp_trunc (- (16106127 / 134217728)) = 0
   \<and> GetCellSize_float 25 25 1 1 = Some 0
   \<and> GetCellSize_float 1 1 10 12 = Some 6
   \<and> GetCellSize_float 25 25 800 450 = Some 17
   \<and> GetCellSize_float 3 7 800 450 = Some 63"
proof -
  have int: "GetCellSize 25 25 800 450 = Some 17" "GetCellSize 1 1 10 12 = Some 6"
    "GetCellSize 25 25 1 1 = Some 0"
    by (simp_all add: GetCellSize_def wrap32_def BORDER_THICKNESS_def cpp_div_def INT_MIN_def)
  have "- 4 \<le> log 2 (3 / 25)" "log 2 (3 / 25) < - 3"
    by (simp_all add: le_log_iff log_less_iff powr_minus powr_numeral)
  then have "\<lfloor>log 2 (3 / 25 :: real)\<rfloor> = - 4"
    by (intro floor_unique) auto
  then have fq: "f32 (- (3 / 25)) = - (16106127 / 134217728)"
    by (simp add: f32_def round_ties_even_def powr_minus powr_numeral)
  have "1 \<le> log 2 3" "log 2 3 < 2"
    by (simp_all add: le_log_iff log_less_iff powr_numeral)
  then have "\<lfloor>log 2 (3 :: real)\<rfloor> = 1"
    by (intro floor_unique) auto
  then have f3: "f32 (- 3) = - 3"
    by (simp add: f32_def round_ties_even_def powr_minus powr_numeral)
  have "4 \<le> log 2 25" "log 2 25 < 5"
    by (simp_all add: le_log_iff log_less_iff powr_numeral)
  then have "\<lfloor>log 2 (25 :: real)\<rfloor> = 4"
    by (intro floor_unique) auto
  then have f25: "f32 25 = 25"
    by (simp add: f32_def round_ties_even_def powr_minus powr_numeral)
  have tr: "cpp_trunc (- (16106127 / 134217728)) = 0"
    by (simp add: cpp_trunc_def)
  have tiny: "GetCellSize_float 25 25 1 1 = Some 0"
    by (simp add: GetCellSize_float_def wrap32_def BORDER_THICKNESS_def f3 f25 fq cpp_trunc_def
        INT_MIN_def INT_MAX_def Let_def)
  have "2 \<le> log 2 6" "log 2 6 < 3"
    by (simp_all add: le_log_iff log_less_iff powr_numeral)
  then have "\<lfloor>log 2 (6 :: real)\<rfloor> = 2"
    by (intro floor_unique) auto
  then have f6: "f32 6 = 6"
    by (simp add: f32_def round_ties_even_def powr_minus powr_numeral)
  have "3 \<le> log 2 8" "log 2 8 < 4"
    by (simp_all add: le_log_iff log_less_iff powr_numeral)
  then have "\<lfloor>log 2 (8 :: real)\<rfloor> = 3"
    by (intro floor_unique) auto
  then have f8: "f32 8 = 8"
    by (simp add: f32_def round_ties_even_def powr_minus powr_numeral)
  have f1: "f32 1 = 1"
    by (simp add: f32_def round_ties_even_def powr_minus powr_numeral)
  have small: "GetCellSize_float 1 1 10 12 = Some 6"
    by (simp add: GetCellSize_float_def wrap32_def BORDER_THICKNESS_def f1 f6 f8 cpp_trunc_def
        INT_MIN_def INT_MAX_def Let_def)
  have "GetCellSize_float 25 25 800 450 = Some 17" "GetCellSize_float 3 7 800 450 = Some 63"
    using GetCellSize_truncates [of 25 25 800 450] GetCellSize_truncates [of 3 7 800 450]
    by simp_all
  with int fq tr tiny small show ?thesis by simp
qed

text \<open>
  On a window of 1 by 1 pixel the quotient is -3 / 25: all three revisions return 0,
  floor division gives -1.
\<close>

theorem GetCellSize_not_floor:
  "GetCellSize 25 25 1 1 = Some 0
   \<and> GetCellSize_float 25 25 1 1 = Some 0
   \<and> min ((1 - 2 * 2) div 25) ((1 - 2 * 2) div 25) = (- 1 :: int)"
proof -
  have "GetCellSize 25 25 1 1 = Some 0"
    by (simp add: GetCellSize_def wrap32_def BORDER_THICKNESS_def cpp_div_def INT_MIN_def)
  moreover have "GetCellSize_float 25 25 1 1 = Some 0"
    using GetCellSize_float_in_range [of 25 25 1 1]
    by (simp add: BORDER_THICKNESS_def cpp_div_def)
  ultimately show ?thesis by simp
qed

end
